theory Spec2Isabelle
  imports Complex_Main "HOL-Library.Sublist" "HOL-Library.AList"
begin

text \<open>
  A shallow embedding of the workflow core of the video research agent: the
  blackboard \<open>AgentState\<close> and its reducers, the two routing functions, the
  video identifier resolver, and the stages (checker, searcher, selector, planner,
  analyst) from the point where their collaborators (language model, search, media
  download) have answered; what a collaborator answers is a parameter of the
  stage. The properties proved of them follow the definitions.
\<close>

section \<open>Python values shared by the stages\<close>

text \<open>
  The exceptions the modelled code can raise. A function of the source that can raise
  returns \<open>py_error + 'a\<close>, with \<open>Inl\<close> the exception.
\<close>

datatype py_error =
  KeyError | AttributeError | TypeError | ValueError | ValidationError | OverflowError

text \<open>
  A value of a search result: a string, or \<open>None\<close> (the search tools store
  \<open>v.get("title")\<close> and \<open>v.get("link")\<close> as they come, so a field that the
  provider leaves out is \<open>None\<close>). The modelled code only tests such a value for
  truth and hands it to the validation of \<open>VideoResource\<close>; a number 0 in the
  place of a string goes the way of \<open>None\<close> in both.
\<close>

datatype pyval = PNone | PStr string

text \<open>
  A \<open>Dict[str, Any]\<close> of a search result (\<open>title\<close>, \<open>link\<close>, \<open>snippet\<close>, ...)
  is an association list in insertion order, as a Python dict is. \<open>d.get(k)\<close> is
  \<open>map_of d k\<close>, \<open>d[k] = v\<close> is \<open>AList.update k v d\<close> (an existing key keeps
  its place, a new one is appended).
\<close>

type_synonym pydict = "(string \<times> pyval) list"

text \<open>The text of a value that is true in an \<open>if\<close>: a non-empty string.\<close>

fun truthy_text :: "pyval option \<Rightarrow> string option" where
  "truthy_text (Some (PStr s)) = (if s = [] then None else Some s)"
| "truthy_text _ = None"

text \<open>A value decoded from JSON (what \<open>json.loads\<close> returns).\<close>

datatype json =
    JNull
  | JBool bool
  | JInt int
  | JFloat rat
  | JStr string
  | JArr "json list"
  | JObj "(string \<times> json) list"

text \<open>Python truthiness (\<open>if x:\<close>, \<open>not x\<close>) of a decoded JSON value.\<close>

fun truthy :: "json \<Rightarrow> bool" where
  "truthy JNull = False"
| "truthy (JBool b) = b"
| "truthy (JInt i) = (i \<noteq> 0)"
| "truthy (JFloat r) = (r \<noteq> 0)"
| "truthy (JStr s) = (s \<noteq> [])"
| "truthy (JArr xs) = (xs \<noteq> [])"
| "truthy (JObj kvs) = (kvs \<noteq> [])"

text \<open>
  \<open>x.get(key, default)\<close>: only a dict has \<open>get\<close>; on a list, a string, a number
  or \<open>None\<close> the attribute lookup raises \<open>AttributeError\<close>.
\<close>

fun py_get :: "json \<Rightarrow> string \<Rightarrow> json \<Rightarrow> py_error + json" where
  "py_get (JObj kvs) k d = Inr (case map_of kvs k of Some v \<Rightarrow> v | None \<Rightarrow> d)"
| "py_get _ k d = Inl AttributeError"

text \<open>\<open>xs[:k]\<close>: a negative \<open>k\<close> counts from the end.\<close>

definition py_slice_to :: "'a list \<Rightarrow> int \<Rightarrow> 'a list" where
  "py_slice_to xs k = (if 0 \<le> k then take (nat k) xs else take (nat (int (length xs) + k)) xs)"

section \<open>The blackboard (core/state.py)\<close>

record EvidenceFragment =
  source :: string
  content :: string
  timestamp_start :: "string option"
  timestamp_end :: "string option"
  confidence :: rat

record VideoResource =
  video_id :: string
  title :: string
  url :: string
  duration :: string
  status :: string
  relevance_reason :: string
  evidence :: "EvidenceFragment list"
  summary :: "string option"
  transcript :: "string option"

text \<open>The video store is a dict from video identifier to resource, in insertion order.\<close>

type_synonym store = "(string \<times> VideoResource) list"

text \<open>
  A value of the metrics dict: a counter, or the per-category sub-dict of counters
  that \<open>update_token_metrics\<close> keeps under a category name.
\<close>

datatype metric = Count int | Category "(string \<times> int) list"

type_synonym metrics_dict = "(string \<times> metric) list"

text \<open>
  \<open>AgentState\<close>. A key read with \<open>state.get(k, default)\<close> may be absent: such a
  field is an option, \<open>None\<close> the absent key. The four history fields and \<open>metrics\<close>
  carry a reducer and start from the empty value of their type.
\<close>

record AgentState =
  user_query :: string
  constraints :: "string list option"
  video_store :: "store option"
  current_search_queries :: "string list option"
  visual_hypothesis :: "string option"
  raw_candidates :: "pydict list option"
  ambiguity_note :: "string option"
  tried_queries :: "string list"
  visited_video_ids :: "string list"
  text_search_context :: "string list"
  plan_trace :: "string list"
  loop_step :: "int option"
  final_answer :: "string option"
  routing_signal :: "string option"
  metrics :: metrics_dict

text \<open>The dict a stage returns: a key the stage does not return is \<open>None\<close>.\<close>

record Update =
  u_video_store :: "store option"
  u_current_search_queries :: "string list option"
  u_raw_candidates :: "pydict list option"
  u_tried_queries :: "string list option"
  u_visited_video_ids :: "string list option"
  u_text_search_context :: "string list option"
  u_plan_trace :: "string list option"
  u_loop_step :: "int option"
  u_final_answer :: "string option"
  u_routing_signal :: "string option"
  u_metrics :: "metrics_dict option"

definition empty_update :: Update where
  "empty_update =
     \<lparr> u_video_store = None, u_current_search_queries = None, u_raw_candidates = None,
       u_tried_queries = None, u_visited_video_ids = None, u_text_search_context = None,
       u_plan_trace = None, u_loop_step = None, u_final_answer = None,
       u_routing_signal = None, u_metrics = None \<rparr>"

subsection \<open>The reducers\<close>

text \<open>
  \<open>operator.ior\<close> on two dicts (\<open>a |= b\<close>): every item of \<open>b\<close>, in order, is stored
  into \<open>a\<close>. This is the reducer of \<open>metrics\<close>.
\<close>

fun dict_ior :: "('k \<times> 'v) list \<Rightarrow> ('k \<times> 'v) list \<Rightarrow> ('k \<times> 'v) list" where
  "dict_ior a [] = a"
| "dict_ior a ((k, v) # b) = dict_ior (AList.update k v a) b"

text \<open>A field without an annotation keeps the last value written to it.\<close>

definition replace_with :: "'a option \<Rightarrow> 'a option \<Rightarrow> 'a option" where
  "replace_with cur new = (case new of None \<Rightarrow> cur | Some v \<Rightarrow> Some v)"

text \<open>\<open>operator.add\<close> on two lists: the reducer of the four history fields.\<close>

definition append_with :: "'a list \<Rightarrow> 'a list option \<Rightarrow> 'a list" where
  "append_with cur new = (case new of None \<Rightarrow> cur | Some xs \<Rightarrow> cur @ xs)"

definition ior_with :: "('k \<times> 'v) list \<Rightarrow> ('k \<times> 'v) list option \<Rightarrow> ('k \<times> 'v) list" where
  "ior_with cur new = (case new of None \<Rightarrow> cur | Some m \<Rightarrow> dict_ior cur m)"

text \<open>
  One stage's partial update merged into the blackboard, each field by the reducer
  its annotation in \<open>AgentState\<close> selects.
\<close>

definition apply_update :: "AgentState \<Rightarrow> Update \<Rightarrow> AgentState" where
  "apply_update s u =
     s \<lparr> video_store := replace_with (video_store s) (u_video_store u),
         current_search_queries :=
           replace_with (current_search_queries s) (u_current_search_queries u),
         raw_candidates := replace_with (raw_candidates s) (u_raw_candidates u),
         tried_queries := append_with (tried_queries s) (u_tried_queries u),
         visited_video_ids := append_with (visited_video_ids s) (u_visited_video_ids u),
         text_search_context :=
           append_with (text_search_context s) (u_text_search_context u),
         plan_trace := append_with (plan_trace s) (u_plan_trace u),
         loop_step := replace_with (loop_step s) (u_loop_step u),
         final_answer := replace_with (final_answer s) (u_final_answer u),
         routing_signal := replace_with (routing_signal s) (u_routing_signal u),
         metrics := ior_with (metrics s) (u_metrics u) \<rparr>"

section \<open>Routing functions (graph/builder.py)\<close>

definition route_checker_output :: "AgentState \<Rightarrow> string" where
  "route_checker_output state =
     (let signal = (case routing_signal state of None \<Rightarrow> ''planner'' | Some sg \<Rightarrow> sg)
      in if signal = ''ask_user'' then ''user_proxy''
         else if signal = ''analyst'' then ''analyst''
         else ''planner'')"

text \<open>
  The path map \<open>build_graph\<close> gives the conditional edge after the checker: the
  destinations a result of \<open>route_checker_output\<close> can be looked up in.
\<close>

definition checker_path_map :: "(string \<times> string) list" where
  "checker_path_map = [(''planner'', ''planner''), (''analyst'', ''analyst'')]"

text \<open>\<open>state["video_store"]\<close> raises \<open>KeyError\<close> when the key is absent.\<close>

definition route_selector_output :: "AgentState \<Rightarrow> py_error + string" where
  "route_selector_output state =
     (case video_store state of
        None \<Rightarrow> Inl KeyError
      | Some vs \<Rightarrow>
          (let candidates = filter (\<lambda>v. status v \<in> set [''candidate'', ''analyzing'']) (map snd vs)
           in if length candidates > 0 then Inr ''watcher'' else Inr ''checker''))"

section \<open>Checker (nodes/checker.py)\<close>



text \<open>The blackboard a run starts from: the input holds the user query only.\<close>

definition initial_state :: "string \<Rightarrow> AgentState" where
  "initial_state q =
     \<lparr> user_query = q, constraints = None, video_store = None,
       current_search_queries = None, visual_hypothesis = None, raw_candidates = None,
       ambiguity_note = None, tried_queries = [], visited_video_ids = [],
       text_search_context = [], plan_trace = [], loop_step = None, final_answer = None,
       routing_signal = None, metrics = [] \<rparr>"

section \<open>The video identifier resolver (utils/parser.py)\<close>

text \<open>\<open>sep in s\<close> on strings: \<open>sep\<close> occurs in \<open>s\<close> as a contiguous substring.\<close>

fun str_contains :: "string \<Rightarrow> string \<Rightarrow> bool" where
  "str_contains sep [] = (sep = [])"
| "str_contains sep (c # cs) = (prefix sep (c # cs) \<or> str_contains sep cs)"

text \<open>\<open>s.find(sep)\<close>: the index of the first occurrence, \<open>None\<close> for Python's -1.\<close>

fun find_sep :: "string \<Rightarrow> string \<Rightarrow> nat option" where
  "find_sep sep [] = (if sep = [] then Some 0 else None)"
| "find_sep sep (c # cs) =
     (if prefix sep (c # cs) then Some 0 else map_option Suc (find_sep sep cs))"

text \<open>
  \<open>s.split(sep)\<close> for the separator \<open>h # t\<close>: the pieces between the occurrences
  of the separator, found left to right without overlap. Python raises \<open>ValueError\<close>
  on an empty separator; a separator given as head and tail is never empty.
\<close>

function split_on :: "char \<Rightarrow> string \<Rightarrow> string \<Rightarrow> string list" where
  "split_on h t s =
     (case find_sep (h # t) s of
        None \<Rightarrow> [s]
      | Some i \<Rightarrow> take i s # split_on h t (drop (i + Suc (length t)) s))"
  by pat_completeness auto
termination
proof (relation "measure (\<lambda>(h, t, s). length s)")
  show "wf (measure (\<lambda>(h, t, s). length s))" by simp
next
  fix h :: char and t s :: string and i :: nat
  assume "find_sep (h # t) s = Some i"
  then have "s \<noteq> []" by (cases s) auto
  then show "((h, t, drop (i + Suc (length t)) s), (h, t, s)) \<in> measure (\<lambda>(h, t, s). length s)"
    by simp
qed

declare split_on.simps [simp del]

text \<open>
  \<open>extract_youtube_id(url)\<close>. The argument is \<open>None\<close> for Python's \<open>None\<close>;
  \<open>xs[-1]\<close> and \<open>xs[0]\<close> are \<open>last\<close> and \<open>hd\<close> of a split, which is never empty.
\<close>

definition extract_youtube_id :: "string option \<Rightarrow> string" where
  "extract_youtube_id u =
     (case u of
        None \<Rightarrow> []
      | Some link \<Rightarrow>
          if link = [] then []
          else if str_contains ''v='' link then
            hd (split_on (CHR ''&'') [] (last (split_on (CHR ''v'') ''='' link)))
          else if str_contains ''/shorts/'' link then
            hd (split_on (CHR ''&'') []
              (hd (split_on (CHR ''?'') [] (last (split_on (CHR ''/'') ''shorts/'' link)))))
          else if str_contains ''youtu.be/'' link then
            hd (split_on (CHR ''&'') []
              (hd (split_on (CHR ''?'') [] (last (split_on (CHR ''y'') ''outu.be/'' link)))))
          else link)"

section \<open>Token metrics (utils/metrics.py)\<close>

text \<open>The \<open>token_usage\<close> of a response; a missing counter reads as 0.\<close>

record token_usage =
  prompt_tokens :: int
  completion_tokens :: int
  total_tokens :: int

text \<open>
  \<open>m[k] = m.get(k, 0) + n\<close> on the metrics dict: adding a number to a sub-dict
  raises \<open>TypeError\<close>.
\<close>

definition add_counter :: "string \<Rightarrow> int \<Rightarrow> metrics_dict \<Rightarrow> py_error + metrics_dict" where
  "add_counter k n m =
     (case map_of m k of
        None \<Rightarrow> Inr (AList.update k (Count (0 + n)) m)
      | Some (Count c) \<Rightarrow> Inr (AList.update k (Count (c + n)) m)
      | Some (Category _) \<Rightarrow> Inl TypeError)"

text \<open>The same on a category's sub-dict, whose values are numbers.\<close>

definition add_cat_counter :: "string \<Rightarrow> int \<Rightarrow> (string \<times> int) list \<Rightarrow> (string \<times> int) list" where
  "add_cat_counter k n cm =
     AList.update k ((case map_of cm k of None \<Rightarrow> 0 | Some c \<Rightarrow> c) + n) cm"

definition update_token_metrics ::
    "metrics_dict \<Rightarrow> token_usage \<Rightarrow> string option \<Rightarrow> py_error + metrics_dict" where
  "update_token_metrics current_metrics usage category =
     (case add_counter ''input_tokens'' (prompt_tokens usage) current_metrics of
        Inl e \<Rightarrow> Inl e
      | Inr m1 \<Rightarrow>
     (case add_counter ''output_tokens'' (completion_tokens usage) m1 of
        Inl e \<Rightarrow> Inl e
      | Inr m2 \<Rightarrow>
     (case add_counter ''total_tokens'' (total_tokens usage) m2 of
        Inl e \<Rightarrow> Inl e
      | Inr new_metrics \<Rightarrow>
          (case category of
             None \<Rightarrow> Inr new_metrics
           | Some cat \<Rightarrow>
               if cat = [] then Inr new_metrics
               else
                 (let cat_metrics =
                        (case map_of new_metrics cat of
                           Some (Category cm) \<Rightarrow> cm
                         | _ \<Rightarrow> []);
                      c1 = add_cat_counter ''input_tokens'' (prompt_tokens usage) cat_metrics;
                      c2 = add_cat_counter ''output_tokens'' (completion_tokens usage) c1;
                      c3 = add_cat_counter ''total_tokens'' (total_tokens usage) c2
                  in Inr (AList.update cat (Category c3) new_metrics))))))"

text \<open>
  The merge as the specification words it, for comparison with the reducer of the
  source: a two-level shallow merge, in which a sub-dict of the partial update is
  merged key by key into the sub-dict the current metrics hold under the same key.
\<close>

definition two_level_value :: "metric option \<Rightarrow> metric \<Rightarrow> metric" where
  "two_level_value cur new =
     (case (cur, new) of
        (Some (Category a), Category b) \<Rightarrow> Category (dict_ior a b)
      | _ \<Rightarrow> new)"

fun spec_two_level_merge :: "metrics_dict \<Rightarrow> metrics_dict \<Rightarrow> metrics_dict" where
  "spec_two_level_merge a [] = a"
| "spec_two_level_merge a ((k, v) # b) =
     spec_two_level_merge (AList.update k (two_level_value (map_of a k) v) a) b"

section \<open>Searcher (nodes/searcher.py)\<close>

text \<open>
  The video searches of the query loop. \<open>youtube_search\<close> and \<open>serper_search\<close> are
  the collaborators: each returns its result list, or \<open>None\<close> when it raises (the
  loop catches the exception and goes on). \<open>q.replace('"', '')\<close> drops the quotes.
\<close>

fun collect_videos ::
    "string \<Rightarrow> (string \<Rightarrow> pydict list option) \<Rightarrow> (string \<Rightarrow> pydict list option) \<Rightarrow>
     string list \<Rightarrow> pydict list" where
  "collect_videos video_provider youtube_search serper_search [] = []"
| "collect_videos video_provider youtube_search serper_search (q # qs) =
     (let clean_q = filter (\<lambda>c. c \<noteq> CHR 0x22) q;
          found =
            (if video_provider = ''youtube'' then
               (case youtube_search clean_q of None \<Rightarrow> [] | Some r \<Rightarrow> r)
             else if video_provider = ''serper'' then
               (case serper_search (clean_q @ '' video'') of None \<Rightarrow> [] | Some r \<Rightarrow> r)
             else [])
      in found @ collect_videos video_provider youtube_search serper_search qs)"

text \<open>
  One round of the deduplication loop: a candidate with a non-empty \<open>link\<close> gets its
  resolved identifier stored under \<open>id\<close> and enters \<open>unique_candidates\<close> when its
  identifier is not a key yet.
\<close>

definition dedup_key :: "pydict \<Rightarrow> string option" where
  "dedup_key cand =
     (case truthy_text (map_of cand ''link'') of
        None \<Rightarrow> None
      | Some link \<Rightarrow> Some (extract_youtube_id (Some link)))"

definition dedup_step :: "(string \<times> pydict) list \<Rightarrow> pydict \<Rightarrow> (string \<times> pydict) list" where
  "dedup_step unique_candidates cand =
     (case dedup_key cand of
        None \<Rightarrow> unique_candidates
      | Some vid \<Rightarrow>
          (let cand' = AList.update ''id'' (PStr vid) cand
           in if map_of unique_candidates vid = None
              then AList.update vid cand' unique_candidates
              else unique_candidates))"

fun dedup_loop :: "(string \<times> pydict) list \<Rightarrow> pydict list \<Rightarrow> (string \<times> pydict) list" where
  "dedup_loop unique_candidates [] = unique_candidates"
| "dedup_loop unique_candidates (cand # cands) =
     dedup_loop (dedup_step unique_candidates cand) cands"

definition dedup_candidates :: "pydict list \<Rightarrow> pydict list" where
  "dedup_candidates all_video_candidates = map snd (dedup_loop [] all_video_candidates)"

text \<open>
  \<open>searcher_node\<close>. The text search collects snippets and deduplicates them through a
  Python set, whose iteration order is not determined by the program: the resulting
  \<open>final_text_context\<close> is a parameter here.
\<close>

definition searcher_node ::
    "string \<Rightarrow> (string \<Rightarrow> pydict list option) \<Rightarrow> (string \<Rightarrow> pydict list option) \<Rightarrow>
     string list \<Rightarrow> AgentState \<Rightarrow> Update" where
  "searcher_node video_provider youtube_search serper_search final_text_context state =
     (let queries = (case current_search_queries state of None \<Rightarrow> [] | Some qs \<Rightarrow> qs)
      in if queries = [] then empty_update \<lparr> u_raw_candidates := Some [] \<rparr>
         else
           (let all_video_candidates =
                  collect_videos video_provider youtube_search serper_search queries
            in empty_update
                 \<lparr> u_raw_candidates := Some (dedup_candidates all_video_candidates),
                   u_text_search_context := Some final_text_context,
                   u_tried_queries := Some queries \<rparr>))"

section \<open>Selector (nodes/selector.py)\<close>

text \<open>
  What the language model call of a stage gives: the call raises, or it returns a
  response with its token usage and the value \<open>extract_json_from_text\<close> decodes
  from its text (\<open>None\<close> when the extraction raises).
\<close>

datatype llm_reply = LlmRaised | LlmReply token_usage "json option"

text \<open>\<open>raw.get("link", "") or raw.get("videourl", "")\<close>.\<close>

definition candidate_url :: "pydict \<Rightarrow> string option" where
  "candidate_url raw =
     (case truthy_text (map_of raw ''link'') of
        Some l \<Rightarrow> Some l
      | None \<Rightarrow> truthy_text (map_of raw ''videourl''))"

fun valid_candidates :: "pydict list \<Rightarrow> pydict list" where
  "valid_candidates [] = []"
| "valid_candidates (raw # raws) =
     (case candidate_url raw of
        Some u \<Rightarrow> AList.update ''url'' (PStr u) raw # valid_candidates raws
      | None \<Rightarrow> valid_candidates raws)"

text \<open>\<open>isinstance(idx, int)\<close>: a JSON integer, or a boolean (\<open>bool\<close> is an \<open>int\<close>).\<close>

fun as_index :: "json \<Rightarrow> int option" where
  "as_index (JInt i) = Some i"
| "as_index (JBool b) = Some (if b then 1 else 0)"
| "as_index _ = None"

text \<open>The loop over the selected indices, left when \<open>top_k\<close> videos are chosen.\<close>

fun pick_indices :: "int \<Rightarrow> pydict list \<Rightarrow> pydict list \<Rightarrow> json list \<Rightarrow> pydict list" where
  "pick_indices top_k valid target_videos [] = target_videos"
| "pick_indices top_k valid target_videos (idx # idxs) =
     (case as_index idx of
        None \<Rightarrow> pick_indices top_k valid target_videos idxs
      | Some i \<Rightarrow>
          if 0 \<le> i \<and> i < int (length valid) then
            (let target' = target_videos @ [valid ! nat i]
             in if int (length target') \<ge> top_k then target'
                else pick_indices top_k valid target' idxs)
          else pick_indices top_k valid target_videos idxs)"

text \<open>
  The selection: \<open>selected\<close> is \<open>None\<close> on the exception path (the model call, the
  metrics update or the extraction raised).
\<close>

definition select_targets :: "int \<Rightarrow> pydict list \<Rightarrow> json option \<Rightarrow> pydict list" where
  "select_targets top_k valid selected =
     (let target_videos =
            (case selected of
               None \<Rightarrow> py_slice_to valid top_k
             | Some (JArr idxs) \<Rightarrow> pick_indices top_k valid [] idxs
             | Some (JObj kvs) \<Rightarrow> pick_indices top_k valid [] (map snd kvs)
             | Some _ \<Rightarrow> py_slice_to valid top_k)
      in if target_videos = [] then py_slice_to valid top_k else target_videos)"

text \<open>\<open>str(i)\<close> of a natural number, for \<open>f"vid_{i}"\<close>.\<close>

fun str_nat :: "nat \<Rightarrow> string" where
  "str_nat n =
     (if n < 10 then [char_of (48 + n)]
      else str_nat (n div 10) @ [char_of (48 + n mod 10)])"

declare str_nat.simps [simp del]

text \<open>
  \<open>extract_youtube_id(video_url) or f"vid_{i}"\<close>; \<open>video_url\<close> is \<open>None\<close> for
  Python's \<open>None\<close>.
\<close>

definition url_text :: "pyval \<Rightarrow> string option" where
  "url_text v = (case v of PNone \<Rightarrow> None | PStr s \<Rightarrow> Some s)"

definition resolve_id :: "nat \<Rightarrow> string option \<Rightarrow> string" where
  "resolve_id i video_url =
     (let e = extract_youtube_id video_url
      in if e \<noteq> [] then e else ''vid_'' @ str_nat i)"

text \<open>The resource of a newly selected video, once its fields are validated.\<close>

definition blank_resource :: "string \<Rightarrow> string \<Rightarrow> string \<Rightarrow> string \<Rightarrow> VideoResource" where
  "blank_resource vid the_title the_url the_duration =
     \<lparr> video_id = vid,
       title = the_title,
       url = the_url,
       duration = the_duration,
       status = ''candidate'',
       relevance_reason = [],
       evidence = [],
       summary = Some [],
       transcript = Some [] \<rparr>"

text \<open>
  The validation of a \<open>str\<close> field of \<open>VideoResource\<close>: \<open>video.get(k, default)\<close>
  is the default for a missing key and the stored value otherwise, and a value
  that is not a string raises \<open>ValidationError\<close>.
\<close>

definition str_field :: "pyval option \<Rightarrow> string \<Rightarrow> py_error + string" where
  "str_field v dflt =
     (case v of
        None \<Rightarrow> Inr dflt
      | Some (PStr s) \<Rightarrow> Inr s
      | Some PNone \<Rightarrow> Inl ValidationError)"

text \<open>
  \<open>VideoResource(video_id=..., title=video.get('title', 'Unknown'), url=video_url,
  duration=video.get('duration', 'Unknown'), status="candidate", summary="",
  transcript="")\<close>.
\<close>

definition new_resource :: "string \<Rightarrow> pydict \<Rightarrow> pyval \<Rightarrow> py_error + VideoResource" where
  "new_resource vid video video_url =
     (case str_field (map_of video ''title'') ''Unknown'' of
        Inl e \<Rightarrow> Inl e
      | Inr the_title \<Rightarrow>
          (case str_field (Some video_url) [] of
             Inl e \<Rightarrow> Inl e
           | Inr the_url \<Rightarrow>
               (case str_field (map_of video ''duration'') ''Unknown'' of
                  Inl e \<Rightarrow> Inl e
                | Inr the_duration \<Rightarrow>
                    Inr (blank_resource vid the_title the_url the_duration))))"

text \<open>
  One round of the loop that updates the video store with the selected videos;
  \<open>video["url"]\<close> raises \<open>KeyError\<close> on a video without that key, and the
  construction of the resource of an unseen identifier raises \<open>ValidationError\<close>
  when a field is not a string.
\<close>

definition store_step :: "store \<Rightarrow> nat \<Rightarrow> pydict \<Rightarrow> py_error + store" where
  "store_step updated_store i video =
     (case map_of video ''url'' of
        None \<Rightarrow> Inl KeyError
      | Some video_url \<Rightarrow>
          (let vid = resolve_id i (url_text video_url)
           in case map_of updated_store vid of
                None \<Rightarrow>
                  (case new_resource vid video video_url of
                     Inl e \<Rightarrow> Inl e
                   | Inr resource \<Rightarrow> Inr (AList.update vid resource updated_store))
              | Some r \<Rightarrow>
                  if status r \<notin> set [''verified'', ''watched'']
                  then Inr (AList.update vid (r \<lparr> status := ''candidate'' \<rparr>) updated_store)
                  else Inr updated_store))"

fun store_loop :: "store \<Rightarrow> nat \<Rightarrow> pydict list \<Rightarrow> py_error + store" where
  "store_loop updated_store i [] = Inr updated_store"
| "store_loop updated_store i (video # videos) =
     (case store_step updated_store i video of
        Inl e \<Rightarrow> Inl e
      | Inr st \<Rightarrow> store_loop st (Suc i) videos)"

text \<open>
  The model call of the \<open>try\<close> block up to the extraction: the metrics and the
  decoded selection it leaves, \<open>None\<close> for the selection when anything raised (the
  metrics are reassigned only when \<open>update_token_metrics\<close> returned).
\<close>

definition selector_llm :: "llm_reply \<Rightarrow> metrics_dict \<Rightarrow> metrics_dict \<times> json option" where
  "selector_llm reply current_metrics =
     (case reply of
        LlmRaised \<Rightarrow> (current_metrics, None)
      | LlmReply usage parsed \<Rightarrow>
          (case update_token_metrics current_metrics usage (Some ''jit_selector'') of
             Inl e \<Rightarrow> (current_metrics, None)
           | Inr m \<Rightarrow> (m, parsed)))"

text \<open>\<open>top_k\<close> is \<open>config.selector.top_k\<close>.\<close>

definition selector_node :: "int \<Rightarrow> llm_reply \<Rightarrow> AgentState \<Rightarrow> py_error + Update" where
  "selector_node top_k reply state =
     (let vs = (case video_store state of None \<Rightarrow> [] | Some st \<Rightarrow> st);
          raw = (case raw_candidates state of None \<Rightarrow> [] | Some cs \<Rightarrow> cs)
      in if raw = [] then Inr (empty_update \<lparr> u_video_store := Some vs \<rparr>)
         else
           (let valid = valid_candidates raw
            in if valid = [] then Inr (empty_update \<lparr> u_video_store := Some vs \<rparr>)
               else
                 (let (metrics1, selected) = selector_llm reply (metrics state);
                      target_videos = select_targets top_k valid selected
                  in case store_loop vs 0 target_videos of
                       Inl e \<Rightarrow> Inl e
                     | Inr updated_store \<Rightarrow>
                         Inr (empty_update \<lparr> u_video_store := Some updated_store,
                                              u_metrics := Some metrics1 \<rparr>))))"

text \<open>
  The \<open>target_videos\<close> of an invocation: the videos it selects, none when it
  returns before the selection.
\<close>

definition selected_videos :: "int \<Rightarrow> llm_reply \<Rightarrow> AgentState \<Rightarrow> pydict list" where
  "selected_videos top_k reply state =
     (let valid = valid_candidates (case raw_candidates state of None \<Rightarrow> [] | Some cs \<Rightarrow> cs)
      in if valid = [] then []
         else select_targets top_k valid (snd (selector_llm reply (metrics state))))"

text \<open>
  The identifiers under which a list of selected videos is met by the store loop,
  the enumeration starting at \<open>i\<close>.
\<close>

fun target_ids :: "nat \<Rightarrow> pydict list \<Rightarrow> string list" where
  "target_ids i [] = []"
| "target_ids i (video # videos) =
     (case map_of video ''url'' of
        None \<Rightarrow> target_ids (Suc i) videos
      | Some video_url \<Rightarrow> resolve_id i (url_text video_url) # target_ids (Suc i) videos)"

section \<open>Planner (nodes/planner.py)\<close>







section \<open>Analyst (nodes/analyst.py)\<close>

text \<open>Truthiness of an optional string (\<open>None\<close> and the empty string are false).\<close>

definition str_truthy :: "string option \<Rightarrow> bool" where
  "str_truthy x = (case x of None \<Rightarrow> False | Some s \<Rightarrow> s \<noteq> [])"

text \<open>
  The number a decoded value stands for in a comparison; a float is taken at its
  exact decimal value.
\<close>

fun num_of :: "json \<Rightarrow> rat option" where
  "num_of (JInt i) = Some (of_int i)"
| "num_of (JFloat r) = Some r"
| "num_of (JBool b) = Some (if b then 1 else 0)"
| "num_of _ = None"

text \<open>
  Whether \<open>f"{x:.1f}"\<close> formats a number: an integer is converted to a float
  first, which raises \<open>OverflowError\<close> from \<open>2^1024 - 2^970\<close> on (the first
  integer that rounds beyond the largest float).
\<close>

fun float_formats :: "json \<Rightarrow> bool" where
  "float_formats (JInt i) = (\<bar>i\<bar> < 2 ^ 1024 - 2 ^ 970)"
| "float_formats _ = True"

text \<open>
  One window of the loop over \<open>windows\<close>: whether it sets
  \<open>has_relevant_content\<close>. \<open>other_le a b\<close> is Python's \<open>a <= b\<close> where an operand
  is not a number (two strings or two lists are ordered, all else raises
  \<open>TypeError\<close>); it is a parameter. A window that passes the comparison has its
  bounds formatted with \<open>:.1f\<close> in the progress message, which raises on bounds
  that are not numbers and on an integer too large for a float.
\<close>

definition window_relevant ::
    "(json \<Rightarrow> json \<Rightarrow> py_error + bool) \<Rightarrow> json \<Rightarrow> py_error + bool" where
  "window_relevant other_le win =
     (case py_get win ''start_time_seconds'' (JFloat 0) of
        Inl e \<Rightarrow> Inl e
      | Inr t_start \<Rightarrow>
          (case py_get win ''end_time_seconds'' (JFloat 0) of
             Inl e \<Rightarrow> Inl e
           | Inr t_end \<Rightarrow>
               (case (num_of t_end, num_of t_start) of
                  (Some b, Some a) \<Rightarrow>
                    if b \<le> a then Inr False
                    else if float_formats t_start \<and> float_formats t_end then Inr True
                    else Inl OverflowError
                | _ \<Rightarrow>
                    (case other_le t_end t_start of
                       Inl e \<Rightarrow> Inl e
                     | Inr skip \<Rightarrow>
                         if skip then Inr False
                         else (case t_start of JStr _ \<Rightarrow> Inl ValueError | _ \<Rightarrow> Inl TypeError)))))"

fun windows_loop ::
    "(json \<Rightarrow> json \<Rightarrow> py_error + bool) \<Rightarrow> bool \<Rightarrow> json list \<Rightarrow> py_error + bool" where
  "windows_loop other_le has_relevant_content [] = Inr has_relevant_content"
| "windows_loop other_le has_relevant_content (win # wins) =
     (case window_relevant other_le win of
        Inl e \<Rightarrow> Inl e
      | Inr b \<Rightarrow> windows_loop other_le (has_relevant_content \<or> b) wins)"

text \<open>
  What \<open>for win in windows\<close> iterates over: the items of a list, the characters of
  a string, the keys of a dict. \<open>len(windows)\<close> in the progress message raises
  \<open>TypeError\<close> on a number or a boolean.
\<close>

fun iter_items :: "json \<Rightarrow> py_error + json list" where
  "iter_items (JArr xs) = Inr xs"
| "iter_items (JStr s) = Inr (map (\<lambda>c. JStr [c]) s)"
| "iter_items (JObj kvs) = Inr (map (\<lambda>kv. JStr (fst kv)) kvs)"
| "iter_items _ = Inl TypeError"

text \<open>
  The body of the first loop for one resource: whether the resource sets
  \<open>has_relevant_content\<close>. \<open>loads\<close> is \<open>json.loads\<close> (\<open>None\<close> when it raises,
  which the bare \<open>except\<close> turns into a skip); \<open>download\<close> tells whether
  \<open>download_video_file\<close> returns a path.
\<close>

definition resource_pass ::
    "(string \<Rightarrow> json option) \<Rightarrow> (string \<Rightarrow> bool) \<Rightarrow> (json \<Rightarrow> json \<Rightarrow> py_error + bool) \<Rightarrow>
     VideoResource \<Rightarrow> py_error + bool" where
  "resource_pass loads download other_le res =
     (if status res \<noteq> ''verified'' \<or> \<not> str_truthy (summary res) then Inr False
      else
        (case loads (case summary res of None \<Rightarrow> [] | Some s \<Rightarrow> s) of
           None \<Rightarrow> Inr False
         | Some analysis \<Rightarrow>
             (case py_get analysis ''relevant'' (JBool False) of
                Inl e \<Rightarrow> Inl e
              | Inr rel \<Rightarrow>
                  if \<not> truthy rel then Inr False
                  else
                    (case py_get analysis ''windows'' (JArr []) of
                       Inl e \<Rightarrow> Inl e
                     | Inr ws \<Rightarrow>
                         (let windows =
                                (if truthy ws then Some ws
                                 else if (case analysis of
                                            JObj kvs \<Rightarrow> map_of kvs ''start_time_seconds'' \<noteq> None
                                          | _ \<Rightarrow> False)
                                 then Some (JArr [analysis])
                                 else None)
                          in case windows of
                               None \<Rightarrow> Inr False
                             | Some w \<Rightarrow>
                                 (case iter_items w of
                                    Inl e \<Rightarrow> Inl e
                                  | Inr wins \<Rightarrow>
                                      if \<not> download (url res) then Inr False
                                      else windows_loop other_le False wins))))))"

fun gather ::
    "(string \<Rightarrow> json option) \<Rightarrow> (string \<Rightarrow> bool) \<Rightarrow> (json \<Rightarrow> json \<Rightarrow> py_error + bool) \<Rightarrow>
     bool \<Rightarrow> VideoResource list \<Rightarrow> py_error + bool" where
  "gather loads download other_le has_relevant_content [] = Inr has_relevant_content"
| "gather loads download other_le has_relevant_content (res # rest) =
     (case resource_pass loads download other_le res of
        Inl e \<Rightarrow> Inl e
      | Inr b \<Rightarrow> gather loads download other_le (has_relevant_content \<or> b) rest)"

text \<open>
  What the analyst does: it returns a fixed answer without calling the language
  model, or it goes on to call it with the gathered content (\<open>Synthesis\<close>; the
  content itself is not modelled).
\<close>

datatype analyst_result = FinalAnswer string | Synthesis

definition analyst_node ::
    "(string \<Rightarrow> json option) \<Rightarrow> (string \<Rightarrow> bool) \<Rightarrow> (json \<Rightarrow> json \<Rightarrow> py_error + bool) \<Rightarrow>
     AgentState \<Rightarrow> py_error + analyst_result" where
  "analyst_node loads download other_le state =
     (let vs = (case video_store state of None \<Rightarrow> [] | Some st \<Rightarrow> st)
      in if vs = [] then Inr (FinalAnswer ''No videos were successfully processed.'')
         else
           (case gather loads download other_le False (map snd vs) of
              Inl e \<Rightarrow> Inl e
            | Inr has_relevant_content \<Rightarrow>
                if has_relevant_content then Inr Synthesis
                else if list_ex (\<lambda>res. str_truthy (transcript res)) (map snd vs)
                then Inr Synthesis
                else Inr (FinalAnswer
                  ''No relevant video content or transcripts found to answer the query.'')))"

text \<open>
  A \<open>json.loads\<close> that decodes the one text \<open>[]\<close>, to the empty list, for running
  the analyst on a summary the watcher can store.
\<close>

definition loads_empty_array :: "string \<Rightarrow> json option" where
  "loads_empty_array s = (if s = ''[]'' then Some (JArr []) else None)"

section \<open>Properties of the routing functions\<close>

text \<open>
  C1 (as amended). For every blackboard state the checker routing function returns
  \<open>user_proxy\<close> when the routing signal is \<open>ask_user\<close>, \<open>analyst\<close> when it is
  \<open>analyst\<close>, and \<open>planner\<close> for every other signal, an absent one included.
\<close>

theorem route_checker_output_table:
  "route_checker_output state =
     (if routing_signal state = Some ''ask_user'' then ''user_proxy''
      else if routing_signal state = Some ''analyst'' then ''analyst''
      else ''planner'')"
proof (cases "routing_signal state")
  case None
  then show ?thesis by (simp add: route_checker_output_def)
next
  case (Some sg)
  then show ?thesis by (simp add: route_checker_output_def)
qed

text \<open>
  The claim as the specification states it fails: on the signal \<open>ask_user\<close> the
  result is not \<open>ask_user\<close>.
\<close>

theorem route_checker_output_ask_user:
  "route_checker_output ((initial_state ''X'') \<lparr> routing_signal := Some ''ask_user'' \<rparr>)
     \<noteq> ''ask_user''"
  by (simp add: route_checker_output_def initial_state_def)

text \<open>
  The result for \<open>ask_user\<close> is, moreover, no key of the path map that
  \<open>build_graph\<close> registers for the checker's conditional edge.
\<close>

lemma user_proxy_not_in_path_map:
  "map_of checker_path_map (route_checker_output (s \<lparr> routing_signal := Some ''ask_user'' \<rparr>)) = None"
  by (simp add: route_checker_output_def checker_path_map_def)

text \<open>
  C8. On a blackboard that holds a video store, the selector routing function
  returns \<open>watcher\<close> exactly when some resource of the store has status
  \<open>candidate\<close> or \<open>analyzing\<close>, and \<open>checker\<close> otherwise.
\<close>

theorem route_selector_output_iff:
  assumes "video_store state = Some vs"
  shows "(route_selector_output state = Inr ''watcher'' \<longleftrightarrow>
            (\<exists>v \<in> set (map snd vs). status v = ''candidate'' \<or> status v = ''analyzing''))
       \<and> (route_selector_output state = Inr ''checker'' \<longleftrightarrow>
            \<not> (\<exists>v \<in> set (map snd vs). status v = ''candidate'' \<or> status v = ''analyzing''))"
proof -
  let ?hit = "\<exists>v \<in> set (map snd vs). status v = ''candidate'' \<or> status v = ''analyzing''"
  have "route_selector_output state = Inr (if ?hit then ''watcher'' else ''checker'')"
    using assms by (auto simp add: route_selector_output_def Let_def filter_empty_conv)
  then show ?thesis by simp
qed

theorem route_selector_output_iff_witness:
  "route_selector_output
     ((initial_state ''X'') \<lparr> video_store :=
        Some [(''abc'',
               blank_resource ''abc'' ''Unknown'' ''https://youtu.be/abc'' ''Unknown'')] \<rparr>)
     = Inr ''watcher''
   \<and> route_selector_output ((initial_state ''X'') \<lparr> video_store := Some [] \<rparr>) = Inr ''checker''"
proof -
  let ?vs = "[(''abc'', blank_resource ''abc'' ''Unknown'' ''https://youtu.be/abc'' ''Unknown'')]"
  let ?s1 = "(initial_state ''X'') \<lparr> video_store := Some ?vs \<rparr>"
  let ?s2 = "(initial_state ''X'') \<lparr> video_store := Some [] \<rparr>"
  have a: "video_store ?s1 = Some ?vs" by simp
  have b: "video_store ?s2 = Some []" by simp
  show ?thesis
    using route_selector_output_iff [OF a] route_selector_output_iff [OF b]
    by (simp add: blank_resource_def)
qed

section \<open>Properties of the checker\<close>






section \<open>Properties of the merge policy\<close>

lemma append_with_fold:
  "foldl (\<lambda>acc u. append_with acc (f u)) xs us =
     xs @ concat (map (\<lambda>u. case f u of None \<Rightarrow> [] | Some ys \<Rightarrow> ys) us)"
proof (induction us arbitrary: xs)
  case Nil
  then show ?case by simp
next
  case (Cons u us)
  show ?case
  proof (cases "f u")
    case None
    then show ?thesis using Cons.IH [of xs] by (simp add: append_with_def)
  next
    case (Some ys)
    then show ?thesis using Cons.IH [of "xs @ ys"] by (simp add: append_with_def)
  qed
qed

lemma tried_queries_foldl:
  "tried_queries (foldl apply_update s us) =
     foldl (\<lambda>acc u. append_with acc (u_tried_queries u)) (tried_queries s) us"
  by (induction us arbitrary: s) (simp_all add: apply_update_def)

lemma visited_video_ids_foldl:
  "visited_video_ids (foldl apply_update s us) =
     foldl (\<lambda>acc u. append_with acc (u_visited_video_ids u)) (visited_video_ids s) us"
  by (induction us arbitrary: s) (simp_all add: apply_update_def)

lemma text_search_context_foldl:
  "text_search_context (foldl apply_update s us) =
     foldl (\<lambda>acc u. append_with acc (u_text_search_context u)) (text_search_context s) us"
  by (induction us arbitrary: s) (simp_all add: apply_update_def)

lemma plan_trace_foldl:
  "plan_trace (foldl apply_update s us) =
     foldl (\<lambda>acc u. append_with acc (u_plan_trace u)) (plan_trace s) us"
  by (induction us arbitrary: s) (simp_all add: apply_update_def)

lemma searcher_tried_queries:
  "u_tried_queries (searcher_node p yt sp txt (s \<lparr> current_search_queries := Some [q] \<rparr>)) = Some [q]"
  by (simp add: searcher_node_def Let_def)

lemma tried_queries_apply_update:
  "tried_queries (apply_update s u) = append_with (tried_queries s) (u_tried_queries u)"
  by (simp add: apply_update_def)

lemma tried_queries_set_queries:
  "tried_queries (s \<lparr> current_search_queries := x \<rparr>) = tried_queries s"
  by simp

text \<open>
  C9. After any number of merges each append-policy field is its initial value
  followed by the contributions of the partial updates, in merge order and with
  nothing removed. Three searcher rounds, the planner having set one query before
  each, leave the three queries at the end of \<open>tried_queries\<close> in call order.
\<close>

theorem append_fields_concatenate:
  "tried_queries (foldl apply_update s us) =
     tried_queries s @ concat (map (\<lambda>u. case u_tried_queries u of None \<Rightarrow> [] | Some ys \<Rightarrow> ys) us)
   \<and> visited_video_ids (foldl apply_update s us) =
     visited_video_ids s @
       concat (map (\<lambda>u. case u_visited_video_ids u of None \<Rightarrow> [] | Some ys \<Rightarrow> ys) us)
   \<and> text_search_context (foldl apply_update s us) =
     text_search_context s @
       concat (map (\<lambda>u. case u_text_search_context u of None \<Rightarrow> [] | Some ys \<Rightarrow> ys) us)
   \<and> plan_trace (foldl apply_update s us) =
     plan_trace s @ concat (map (\<lambda>u. case u_plan_trace u of None \<Rightarrow> [] | Some ys \<Rightarrow> ys) us)
   \<and> (let s1 = s \<lparr> current_search_queries := Some [q1] \<rparr>;
           r1 = apply_update s1 (searcher_node p yt1 sp1 txt1 s1);
           s2 = r1 \<lparr> current_search_queries := Some [q2] \<rparr>;
           r2 = apply_update s2 (searcher_node p yt2 sp2 txt2 s2);
           s3 = r2 \<lparr> current_search_queries := Some [q3] \<rparr>;
           r3 = apply_update s3 (searcher_node p yt3 sp3 txt3 s3)
       in tried_queries r3 = tried_queries s @ [q1, q2, q3])"
proof -
  have three:
    "(let s1 = s \<lparr> current_search_queries := Some [q1] \<rparr>;
           r1 = apply_update s1 (searcher_node p yt1 sp1 txt1 s1);
           s2 = r1 \<lparr> current_search_queries := Some [q2] \<rparr>;
           r2 = apply_update s2 (searcher_node p yt2 sp2 txt2 s2);
           s3 = r2 \<lparr> current_search_queries := Some [q3] \<rparr>;
           r3 = apply_update s3 (searcher_node p yt3 sp3 txt3 s3)
       in tried_queries r3 = tried_queries s @ [q1, q2, q3])"
    unfolding Let_def
    by (simp only: tried_queries_apply_update searcher_tried_queries tried_queries_set_queries)
       (simp add: append_with_def)
  show ?thesis
    using three
    by (simp only: tried_queries_foldl visited_video_ids_foldl text_search_context_foldl
        plan_trace_foldl append_with_fold simp_thms)
qed

lemma map_of_dict_ior:
  "distinct (map fst b) \<Longrightarrow> map_of (dict_ior a b) = map_of a ++ map_of b"
proof (induction b arbitrary: a)
  case Nil
  then show ?case by simp
next
  case (Cons kv b)
  obtain k v where kv: "kv = (k, v)" by (cases kv)
  have fresh: "map_of b k = None"
    using Cons.prems by (simp add: kv map_of_eq_None_iff)
  have "map_of (dict_ior a (kv # b)) = map_of (AList.update k v a) ++ map_of b"
    using Cons.prems by (simp add: kv Cons.IH)
  also have "\<dots> = (map_of a)(k \<mapsto> v) ++ map_of b"
    by (simp only: update_conv')
  also have "\<dots> = map_of a ++ map_of (kv # b)"
    using fresh by (intro ext) (simp add: kv map_add_def split: option.split)
  finally show ?case .
qed

text \<open>
  C2 (as amended). The metrics field is merged by a one-level shallow merge: under
  every key the value of the partial update wins when the update has that key, a
  per-category sub-dict as a whole, and the current value stays otherwise. (The
  partial update is a dict: its keys are distinct.)
\<close>

theorem metrics_merge_one_level:
  assumes "u_metrics u = Some part" and "distinct (map fst part)"
  shows "map_of (metrics (apply_update s u)) k =
     (case map_of part k of Some v \<Rightarrow> Some v | None \<Rightarrow> map_of (metrics s) k)"
proof -
  have "metrics (apply_update s u) = dict_ior (metrics s) part"
    using assms(1) by (simp add: apply_update_def ior_with_def)
  then show ?thesis
    using assms(2) by (simp add: map_of_dict_ior map_add_def)
qed

theorem metrics_merge_one_level_witness:
  "map_of (metrics (apply_update
      ((initial_state ''X'') \<lparr> metrics :=
         [(''input_tokens'', Count 7), (''jit_watcher'', Category [(''input_tokens'', 7)])] \<rparr>)
      (empty_update \<lparr> u_metrics := Some [(''jit_selector'', Category [(''input_tokens'', 2)])] \<rparr>)))
     ''jit_watcher'' = Some (Category [(''input_tokens'', 7)])"
proof -
  let ?part = "[(''jit_selector'', Category [(''input_tokens'', 2)])]"
  let ?u = "empty_update \<lparr> u_metrics := Some ?part \<rparr>"
  let ?s = "(initial_state ''X'') \<lparr> metrics :=
         [(''input_tokens'', Count 7), (''jit_watcher'', Category [(''input_tokens'', 7)])] \<rparr>"
  have a: "u_metrics ?u = Some ?part" by simp
  have b: "distinct (map fst ?part)" by simp
  show ?thesis
    using metrics_merge_one_level [where s = "?s" and k = "''jit_watcher''", OF a b]
    by (simp add: initial_state_def)
qed

text \<open>
  The claim as the specification states it fails: a sub-dict of the partial update
  replaces the current sub-dict of the same category, where a two-level merge would
  keep the counter \<open>input_tokens\<close> of the current one.
\<close>

theorem metrics_merge_not_two_level:
  "metrics (apply_update
     ((initial_state ''X'') \<lparr> metrics := [(''jit_selector'', Category [(''input_tokens'', 5)])] \<rparr>)
     (empty_update \<lparr> u_metrics := Some [(''jit_selector'', Category [(''output_tokens'', 3)])] \<rparr>))
     = [(''jit_selector'', Category [(''output_tokens'', 3)])]
   \<and> spec_two_level_merge
       [(''jit_selector'', Category [(''input_tokens'', 5)])]
       [(''jit_selector'', Category [(''output_tokens'', 3)])]
     = [(''jit_selector'', Category [(''input_tokens'', 5), (''output_tokens'', 3)])]"
  by (simp add: apply_update_def ior_with_def initial_state_def empty_update_def
      two_level_value_def)

text \<open>
  The accumulation per category is the stage's own: \<open>update_token_metrics\<close> adds
  to the counters of the sub-dict it finds, and touches no key but the three global
  counters and its category.
\<close>

lemma add_counter_other:
  "add_counter k n m = Inr m' \<Longrightarrow> k' \<noteq> k \<Longrightarrow> map_of m' k' = map_of m k'"
  by (auto simp add: add_counter_def update_conv' split: option.splits metric.splits)

lemma update_token_metrics_other:
  assumes "update_token_metrics m usage (Some cat) = Inr m'"
    and "k \<notin> {''input_tokens'', ''output_tokens'', ''total_tokens'', cat}"
  shows "map_of m' k = map_of m k"
proof -
  from assms(1) obtain m1 m2 m3 where
    s1: "add_counter ''input_tokens'' (prompt_tokens usage) m = Inr m1" and
    s2: "add_counter ''output_tokens'' (completion_tokens usage) m1 = Inr m2" and
    s3: "add_counter ''total_tokens'' (total_tokens usage) m2 = Inr m3" and
    fin: "m' = m3 \<or> (\<exists>c. m' = AList.update cat (Category c) m3)"
    by (auto simp add: update_token_metrics_def Let_def split: sum.splits if_splits)
  have "map_of m3 k = map_of m k"
    using add_counter_other [OF s1] add_counter_other [OF s2] add_counter_other [OF s3] assms(2)
    by simp
  moreover have "map_of m' k = map_of m3 k"
    using fin assms(2) by (auto simp add: update_conv')
  ultimately show ?thesis by simp
qed

section \<open>Properties of the resolver and of the searcher's deduplication\<close>

lemma split_on_not_empty: "split_on h t s \<noteq> []"
  by (subst split_on.simps) (simp split: option.split)

lemma dedup_key_plain:
  assumes "map_of cand ''link'' = Some (PStr link)" and "link \<noteq> []"
    and "\<not> str_contains ''v='' link" and "\<not> str_contains ''/shorts/'' link"
    and "\<not> str_contains ''youtu.be/'' link"
  shows "dedup_key cand = Some link"
  using assms by (simp add: dedup_key_def extract_youtube_id_def)

text \<open>
  What holds of the resolver: it returns the empty string for a missing or empty
  URL, and the URL itself for every URL that contains none of \<open>v=\<close>,
  \<open>/shorts/\<close> and \<open>youtu.be/\<close>; a candidate with such a (non-empty) link is
  keyed by its raw URL in the searcher's deduplication, and stored under it.
\<close>

theorem extract_youtube_id_fallback:
  "extract_youtube_id None = []
   \<and> extract_youtube_id (Some []) = []
   \<and> (\<not> str_contains ''v='' link \<and> \<not> str_contains ''/shorts/'' link
        \<and> \<not> str_contains ''youtu.be/'' link \<longrightarrow>
      extract_youtube_id (Some link) = link
      \<and> (link \<noteq> [] \<and> map_of cand ''link'' = Some (PStr link) \<longrightarrow>
           dedup_key cand = Some link
           \<and> dedup_step [] cand = [(link, AList.update ''id'' (PStr link) cand)]))"
proof (intro conjI impI)
  show "extract_youtube_id None = []" by (simp add: extract_youtube_id_def)
  show "extract_youtube_id (Some []) = []" by (simp add: extract_youtube_id_def)
next
  assume plain: "\<not> str_contains ''v='' link \<and> \<not> str_contains ''/shorts/'' link
        \<and> \<not> str_contains ''youtu.be/'' link"
  then show "extract_youtube_id (Some link) = link"
    by (simp add: extract_youtube_id_def)
  assume "link \<noteq> [] \<and> map_of cand ''link'' = Some (PStr link)"
  with plain have key: "dedup_key cand = Some link"
    by (simp add: dedup_key_plain)
  then show "dedup_key cand = Some link" .
  from key show "dedup_step [] cand = [(link, AList.update ''id'' (PStr link) cand)]"
    by (simp add: dedup_step_def)
qed

theorem extract_youtube_id_fallback_witness:
  "extract_youtube_id (Some ''https://vimeo.com/12345'') = ''https://vimeo.com/12345''
   \<and> dedup_step [] [(''title'', PStr ''A''), (''link'', PStr ''https://vimeo.com/12345'')] =
       [(''https://vimeo.com/12345'',
         [(''title'', PStr ''A''), (''link'', PStr ''https://vimeo.com/12345''),
          (''id'', PStr ''https://vimeo.com/12345'')])]"
proof -
  let ?l = "''https://vimeo.com/12345''"
  let ?c = "[(''title'', PStr ''A''), (''link'', PStr ?l)]"
  have plain: "\<not> str_contains ''v='' ?l \<and> \<not> str_contains ''/shorts/'' ?l
        \<and> \<not> str_contains ''youtu.be/'' ?l"
    by simp
  have linked: "?l \<noteq> [] \<and> map_of ?c ''link'' = Some (PStr ?l)" by simp
  show ?thesis
    using extract_youtube_id_fallback [where link = ?l and cand = ?c] plain linked
    by simp
qed

text \<open>
  C10, at an input where the code leaves the claim. The URL
  \<open>https://example.com/clip?rev=7\<close> matches none of the YouTube patterns
  \<open>watch?v=\<close>, \<open>/shorts/\<close> and \<open>youtu.be/\<close>, so the claim, and the docstring of
  the resolver, have it returned unchanged; the resolver tests for \<open>v=\<close> alone and
  returns \<open>7\<close>.
\<close>

theorem extract_youtube_id_cuts_other_urls:
  "\<not> str_contains ''watch?v='' ''https://example.com/clip?rev=7''
   \<and> \<not> str_contains ''/shorts/'' ''https://example.com/clip?rev=7''
   \<and> \<not> str_contains ''youtu.be/'' ''https://example.com/clip?rev=7''
   \<and> extract_youtube_id (Some ''https://example.com/clip?rev=7'') = ''7''"
  by code_simp

text \<open>
  In the searcher the same test makes one candidate of two pages that have nothing
  in common but the end of their query string: they are not keyed by their raw
  URLs, and the second one is dropped.
\<close>

lemma searcher_collapses_other_urls:
  "dedup_candidates
     [[(''link'', PStr ''https://example.com/clip?rev=7'')],
      [(''link'', PStr ''https://example.org/talk?rev=7'')]] =
     [[(''link'', PStr ''https://example.com/clip?rev=7''), (''id'', PStr ''7'')]]"
  by code_simp

lemma dedup_key_update_id: "dedup_key (AList.update ''id'' v c) = dedup_key c"
  by (simp add: dedup_key_def update_conv')

lemma update_fresh: "map_of al k = None \<Longrightarrow> AList.update k v al = al @ [(k, v)]"
  by (induction al) (auto split: if_splits)

lemma dedup_step_cases:
  "dedup_step u c = u \<or>
   (\<exists>k. dedup_key c = Some k \<and> map_of u k = None \<and>
        dedup_step u c = u @ [(k, AList.update ''id'' (PStr k) c)])"
proof (cases "dedup_key c")
  case None
  then show ?thesis by (simp add: dedup_step_def)
next
  case (Some k)
  show ?thesis
  proof (cases "map_of u k")
    case None
    with Some show ?thesis by (simp add: dedup_step_def update_fresh)
  next
    case (Some r)
    with \<open>dedup_key c = Some k\<close> show ?thesis by (simp add: dedup_step_def)
  qed
qed

lemma dedup_step_keyed:
  assumes "distinct (map fst u)" and "\<forall>kr \<in> set u. dedup_key (snd kr) = Some (fst kr)"
  shows "distinct (map fst (dedup_step u c))
       \<and> (\<forall>kr \<in> set (dedup_step u c). dedup_key (snd kr) = Some (fst kr))"
  using dedup_step_cases [of u c] assms
  by (auto simp add: dedup_key_update_id map_of_eq_None_iff)

lemma dedup_loop_keyed:
  "distinct (map fst u) \<Longrightarrow> \<forall>kr \<in> set u. dedup_key (snd kr) = Some (fst kr) \<Longrightarrow>
   distinct (map fst (dedup_loop u cs))
   \<and> (\<forall>kr \<in> set (dedup_loop u cs). dedup_key (snd kr) = Some (fst kr))"
proof (induction cs arbitrary: u)
  case Nil
  then show ?case by simp
next
  case (Cons c cs)
  from dedup_step_keyed [OF Cons.prems, of c]
  have d: "distinct (map fst (dedup_step u c))"
    and k: "\<forall>kr \<in> set (dedup_step u c). dedup_key (snd kr) = Some (fst kr)"
    by blast+
  from Cons.IH [OF d k] show ?case by simp
qed

lemma dedup_step_keeps:
  "map_of u k = Some r \<Longrightarrow> map_of (dedup_step u c) k = Some r"
  using dedup_step_cases [of u c] by (auto simp add: map_of_append)

lemma dedup_loop_keeps:
  "map_of u k = Some r \<Longrightarrow> map_of (dedup_loop u cs) k = Some r"
  by (induction cs arbitrary: u) (simp_all add: dedup_step_keeps)

lemma dedup_step_other:
  "map_of u k = None \<Longrightarrow> dedup_key c \<noteq> Some k \<Longrightarrow> map_of (dedup_step u c) k = None"
  using dedup_step_cases [of u c] by (auto simp add: map_of_append)

lemma dedup_step_enters:
  "map_of u k = None \<Longrightarrow> dedup_key c = Some k \<Longrightarrow>
   map_of (dedup_step u c) k = Some (AList.update ''id'' (PStr k) c)"
  by (simp add: dedup_step_def update_conv')

text \<open>The first candidate that resolves to an identifier is the one stored under it.\<close>

lemma dedup_loop_first:
  "map_of u k = None \<Longrightarrow> find (\<lambda>c. dedup_key c = Some k) cs = Some c \<Longrightarrow>
   map_of (dedup_loop u cs) k = Some (AList.update ''id'' (PStr k) c)"
proof (induction cs arbitrary: u)
  case Nil
  then show ?case by simp
next
  case (Cons c0 cs)
  show ?case
  proof (cases "dedup_key c0 = Some k")
    case True
    with Cons.prems have "c = c0" by simp
    moreover have "map_of (dedup_step u c0) k = Some (AList.update ''id'' (PStr k) c0)"
      using Cons.prems(1) True by (rule dedup_step_enters)
    ultimately show ?thesis by (simp add: dedup_loop_keeps)
  next
    case False
    with Cons.prems have later: "find (\<lambda>c. dedup_key c = Some k) cs = Some c" by simp
    have "map_of (dedup_step u c0) k = None"
      using Cons.prems(1) False by (rule dedup_step_other)
    from Cons.IH [OF this later] show ?thesis by simp
  qed
qed

lemma keyed_values_filter:
  "distinct (map fst u) \<Longrightarrow> \<forall>kr \<in> set u. dedup_key (snd kr) = Some (fst kr) \<Longrightarrow>
   filter (\<lambda>r. dedup_key r = Some k) (map snd u) =
     (case map_of u k of None \<Rightarrow> [] | Some r \<Rightarrow> [r])"
proof (induction u)
  case Nil
  then show ?case by simp
next
  case (Cons kr u)
  obtain k0 r0 where kr: "kr = (k0, r0)" by (cases kr)
  have key0: "dedup_key r0 = Some k0" using Cons.prems(2) by (simp add: kr)
  have ih: "filter (\<lambda>r. dedup_key r = Some k) (map snd u) =
     (case map_of u k of None \<Rightarrow> [] | Some r \<Rightarrow> [r])"
    using Cons.IH Cons.prems by simp
  show ?case
  proof (cases "k0 = k")
    case True
    have "map_of u k = None"
      using Cons.prems(1) by (simp add: kr True [symmetric] map_of_eq_None_iff)
    with ih key0 True show ?thesis by (simp add: kr)
  next
    case False
    with ih key0 show ?thesis by (simp add: kr)
  qed
qed

text \<open>
  C5. When raw video candidates of the searcher resolve to one video identifier,
  the returned \<open>raw_candidates\<close> hold exactly one entry that resolves to it: the
  first such candidate in input order (with the identifier stored under \<open>id\<close>).
\<close>

theorem searcher_keeps_first_per_identifier:
  assumes "current_search_queries state = Some qs" and "qs \<noteq> []"
    and "find (\<lambda>c. dedup_key c = Some k) (collect_videos p yt sp qs) = Some c"
  shows "\<exists>kept. u_raw_candidates (searcher_node p yt sp txt state) = Some kept
           \<and> filter (\<lambda>r. dedup_key r = Some k) kept = [AList.update ''id'' (PStr k) c]"
proof -
  let ?all = "collect_videos p yt sp qs"
  have out: "u_raw_candidates (searcher_node p yt sp txt state) = Some (dedup_candidates ?all)"
    using assms(1,2) by (simp add: searcher_node_def Let_def)
  have keyed: "distinct (map fst (dedup_loop [] ?all))
       \<and> (\<forall>kr \<in> set (dedup_loop [] ?all). dedup_key (snd kr) = Some (fst kr))"
    by (rule dedup_loop_keyed) simp_all
  have stored: "map_of (dedup_loop [] ?all) k = Some (AList.update ''id'' (PStr k) c)"
    using assms(3) by (intro dedup_loop_first) simp_all
  have "filter (\<lambda>r. dedup_key r = Some k) (dedup_candidates ?all) = [AList.update ''id'' (PStr k) c]"
    unfolding dedup_candidates_def
    using keyed stored by (simp add: keyed_values_filter)
  with out show ?thesis by simp
qed

lemma resolve_example_1:
  "extract_youtube_id (Some ''https://www.youtube.com/watch?v=abc123&t=10s'') = ''abc123''"
  by code_simp

lemma resolve_example_2:
  "extract_youtube_id (Some ''https://www.youtube.com/watch?v=abc123&pp=xyz'') = ''abc123''"
  by code_simp

theorem searcher_keeps_first_per_identifier_witness:
  "\<exists>kept.
     u_raw_candidates
       (searcher_node ''youtube''
          (\<lambda>q. Some [[(''title'', PStr ''A''),
             (''link'', PStr ''https://www.youtube.com/watch?v=abc123&t=10s'')],
                      [(''title'', PStr ''B''),
             (''link'', PStr ''https://www.youtube.com/watch?v=abc123&pp=xyz'')]])
          (\<lambda>q. None) []
          ((initial_state ''X'') \<lparr> current_search_queries := Some [''braised pork''] \<rparr>))
       = Some kept
     \<and> filter (\<lambda>r. dedup_key r = Some ''abc123'') kept =
         [[(''title'', PStr ''A''),
             (''link'', PStr ''https://www.youtube.com/watch?v=abc123&t=10s''),
           (''id'', PStr ''abc123'')]]"
proof -
  let ?c1 = "[(''title'', PStr ''A''),
             (''link'', PStr ''https://www.youtube.com/watch?v=abc123&t=10s'')]"
  let ?c2 = "[(''title'', PStr ''B''),
             (''link'', PStr ''https://www.youtube.com/watch?v=abc123&pp=xyz'')]"
  let ?yt = "\<lambda>q::string. Some [?c1, ?c2]"
  let ?sp = "\<lambda>q::string. (None :: pydict list option)"
  let ?st = "(initial_state ''X'') \<lparr> current_search_queries := Some [''braised pork''] \<rparr>"
  have a: "current_search_queries ?st = Some [''braised pork'']" by simp
  have b: "[''braised pork''] \<noteq> []" by simp
  have c: "find (\<lambda>c. dedup_key c = Some ''abc123'')
             (collect_videos ''youtube'' ?yt ?sp [''braised pork'']) = Some ?c1"
    by (simp add: dedup_key_def resolve_example_1)
  show ?thesis
    using searcher_keeps_first_per_identifier [OF a b c, of "[]"] by simp
qed

section \<open>Properties of the selector\<close>

lemma valid_candidates_have_url:
  "v \<in> set (valid_candidates raw) \<Longrightarrow> \<exists>u. map_of v ''url'' = Some (PStr u)"
  by (induction raw) (auto simp add: update_conv' split: option.splits)

lemma pick_indices_subset:
  "set target \<subseteq> set valid \<Longrightarrow> set (pick_indices k valid target idxs) \<subseteq> set valid"
proof (induction idxs arbitrary: target)
  case Nil
  then show ?case by simp
next
  case (Cons idx idxs)
  show ?case
  proof (cases "as_index idx")
    case None
    then show ?thesis using Cons by simp
  next
    case (Some i)
    show ?thesis
    proof (cases "0 \<le> i \<and> i < int (length valid)")
      case True
      then have "nat i < length valid" by linarith
      then have "valid ! nat i \<in> set valid" by (rule nth_mem)
      then have "set (target @ [valid ! nat i]) \<subseteq> set valid"
        using Cons.prems by simp
      then show ?thesis
        using Some True Cons.IH [of "target @ [valid ! nat i]"] by (simp add: Let_def)
    next
      case False
      show ?thesis using Cons by (simp add: Some False)
    qed
  qed
qed

lemma py_slice_to_subset: "set (py_slice_to xs k) \<subseteq> set xs"
  by (simp add: py_slice_to_def set_take_subset)

lemma select_targets_subset: "set (select_targets k valid sel) \<subseteq> set valid"
proof -
  have pick: "\<And>idxs. set (pick_indices k valid [] idxs) \<subseteq> set valid"
    by (rule pick_indices_subset) simp
  show ?thesis
    unfolding select_targets_def Let_def
    by (simp add: py_slice_to_subset pick split: option.split json.split)
qed

lemma new_resource_status: "new_resource vid v w = Inr r \<Longrightarrow> status r = ''candidate''"
  by (auto simp add: new_resource_def blank_resource_def split: sum.splits)

lemma store_step_url: "store_step st i v = Inr st1 \<Longrightarrow> \<exists>w. map_of v ''url'' = Some w"
  by (cases "map_of v ''url''") (simp_all add: store_step_def)

text \<open>What a round of the store loop that returns leaves under each identifier.\<close>

lemma store_step_lookup:
  assumes "store_step st i v = Inr st1" and "map_of v ''url'' = Some w"
  shows "vid \<noteq> resolve_id i (url_text w) \<longrightarrow> map_of st1 vid = map_of st vid"
    and "vid = resolve_id i (url_text w) \<longrightarrow>
           (case map_of st vid of
              None \<Rightarrow> \<exists>r. map_of st1 vid = Some r \<and> status r = ''candidate''
            | Some r \<Rightarrow>
                map_of st1 vid =
                  Some (if status r \<noteq> ''verified'' \<and> status r \<noteq> ''watched''
                        then r \<lparr> status := ''candidate'' \<rparr> else r))"
proof -
  let ?k = "resolve_id i (url_text w)"
  have both:
    "(vid \<noteq> ?k \<longrightarrow> map_of st1 vid = map_of st vid)
     \<and> (vid = ?k \<longrightarrow>
           (case map_of st vid of
              None \<Rightarrow> \<exists>r. map_of st1 vid = Some r \<and> status r = ''candidate''
            | Some r \<Rightarrow>
                map_of st1 vid =
                  Some (if status r \<noteq> ''verified'' \<and> status r \<noteq> ''watched''
                        then r \<lparr> status := ''candidate'' \<rparr> else r)))"
  proof (cases "map_of st ?k")
    case None
    with assms obtain r where
      r: "new_resource ?k v w = Inr r" and st1: "st1 = AList.update ?k r st"
      by (auto simp add: store_step_def Let_def split: sum.splits)
    from r have "status r = ''candidate''" by (rule new_resource_status)
    with st1 None show ?thesis by (simp add: update_conv')
  next
    case (Some r)
    show ?thesis
    proof (cases "status r \<noteq> ''verified'' \<and> status r \<noteq> ''watched''")
      case True
      with Some assms have "st1 = AList.update ?k (r \<lparr> status := ''candidate'' \<rparr>) st"
        by (simp add: store_step_def Let_def)
      with Some True show ?thesis by (simp add: update_conv')
    next
      case False
      with Some assms have "st1 = st" by (auto simp add: store_step_def Let_def)
      with Some False show ?thesis by auto
    qed
  qed
  from both show "vid \<noteq> ?k \<longrightarrow> map_of st1 vid = map_of st vid" by blast
  from both show "vid = ?k \<longrightarrow>
           (case map_of st vid of
              None \<Rightarrow> \<exists>r. map_of st1 vid = Some r \<and> status r = ''candidate''
            | Some r \<Rightarrow>
                map_of st1 vid =
                  Some (if status r \<noteq> ''verified'' \<and> status r \<noteq> ''watched''
                        then r \<lparr> status := ''candidate'' \<rparr> else r))" by blast
qed

text \<open>A resource that is verified or watched goes through the loop unchanged.\<close>

lemma store_loop_keeps_verified:
  "store_loop st i ts = Inr st' \<Longrightarrow> map_of st vid = Some r \<Longrightarrow>
   status r = ''verified'' \<or> status r = ''watched'' \<Longrightarrow> map_of st' vid = Some r"
proof (induction ts arbitrary: st i)
  case Nil
  then show ?case by simp
next
  case (Cons t ts)
  from Cons.prems(1) obtain st1 where
    st1: "store_step st i t = Inr st1" and rest: "store_loop st1 (Suc i) ts = Inr st'"
    by (auto split: sum.splits)
  from store_step_url [OF st1] obtain w where w: "map_of t ''url'' = Some w" by blast
  from store_step_lookup [OF st1 w, of vid] Cons.prems(2,3)
  have "map_of st1 vid = Some r" by auto
  from Cons.IH [OF rest this Cons.prems(3)] show ?case .
qed

text \<open>A resource in any other status is marked candidate when its identifier is met.\<close>

lemma store_loop_remarks:
  "store_loop st i ts = Inr st' \<Longrightarrow> map_of st vid = Some r \<Longrightarrow>
   status r \<noteq> ''verified'' \<Longrightarrow> status r \<noteq> ''watched'' \<Longrightarrow>
   map_of st' vid =
     Some (if vid \<in> set (target_ids i ts) then r \<lparr> status := ''candidate'' \<rparr> else r)"
proof (induction ts arbitrary: st i r)
  case Nil
  then show ?case by simp
next
  case (Cons t ts)
  from Cons.prems(1) obtain st1 where
    st1: "store_step st i t = Inr st1" and rest: "store_loop st1 (Suc i) ts = Inr st'"
    by (auto split: sum.splits)
  from store_step_url [OF st1] obtain w where w: "map_of t ''url'' = Some w" by blast
  note look = store_step_lookup [OF st1 w, of vid]
  show ?case
  proof (cases "vid = resolve_id i (url_text w)")
    case True
    let ?r1 = "r \<lparr> status := ''candidate'' \<rparr>"
    have one: "map_of st1 vid = Some ?r1"
      using look(2) True Cons.prems(2,3,4) by simp
    have "map_of st' vid =
        Some (if vid \<in> set (target_ids (Suc i) ts) then ?r1 \<lparr> status := ''candidate'' \<rparr> else ?r1)"
      by (rule Cons.IH [OF rest one]) simp_all
    then show ?thesis using True w by simp
  next
    case False
    have one: "map_of st1 vid = Some r"
      using look(1) False Cons.prems(2) by simp
    from Cons.IH [OF rest one Cons.prems(3,4)] False w show ?thesis by simp
  qed
qed

text \<open>An identifier the store does not hold is inserted as a candidate when it is met.\<close>

lemma store_loop_inserts:
  "store_loop st i ts = Inr st' \<Longrightarrow> map_of st vid = None \<Longrightarrow>
   vid \<in> set (target_ids i ts) \<Longrightarrow>
   \<exists>r'. map_of st' vid = Some r' \<and> status r' = ''candidate''"
proof (induction ts arbitrary: st i)
  case Nil
  then show ?case by simp
next
  case (Cons t ts)
  from Cons.prems(1) obtain st1 where
    st1: "store_step st i t = Inr st1" and rest: "store_loop st1 (Suc i) ts = Inr st'"
    by (auto split: sum.splits)
  from store_step_url [OF st1] obtain w where w: "map_of t ''url'' = Some w" by blast
  note look = store_step_lookup [OF st1 w, of vid]
  show ?case
  proof (cases "vid = resolve_id i (url_text w)")
    case True
    with look(2) Cons.prems(2) obtain r where
      one: "map_of st1 vid = Some r" and fresh: "status r = ''candidate''"
      by auto
    from fresh have "status r \<noteq> ''verified''" "status r \<noteq> ''watched''" by simp_all
    from store_loop_remarks [OF rest one this] fresh
    show ?thesis by auto
  next
    case False
    have one: "map_of st1 vid = None"
      using look(1) False Cons.prems(2) by simp
    have "vid \<in> set (target_ids (Suc i) ts)"
      using Cons.prems(3) False w by simp
    from Cons.IH [OF rest one this] show ?thesis .
  qed
qed

text \<open>
  The selector as a whole: it returns the store untouched when it selects nothing,
  and what the store loop returns or raises otherwise.
\<close>

lemma selector_node_cases:
  fixes top_k reply state
  defines "vs \<equiv> (case video_store state of None \<Rightarrow> [] | Some st \<Rightarrow> st)"
  shows "(selected_videos top_k reply state = [] \<and>
            selector_node top_k reply state = Inr (empty_update \<lparr> u_video_store := Some vs \<rparr>))
       \<or> (\<exists>st' m. store_loop vs 0 (selected_videos top_k reply state) = Inr st' \<and>
            selector_node top_k reply state =
              Inr (empty_update \<lparr> u_video_store := Some st', u_metrics := Some m \<rparr>))
       \<or> (\<exists>e. store_loop vs 0 (selected_videos top_k reply state) = Inl e \<and>
            selector_node top_k reply state = Inl e)"
proof -
  let ?raw = "case raw_candidates state of None \<Rightarrow> [] | Some cs \<Rightarrow> cs"
  let ?valid = "valid_candidates ?raw"
  show ?thesis
  proof (cases "?valid = []")
    case True
    then have "selected_videos top_k reply state = []"
      by (simp add: selected_videos_def)
    moreover have "selector_node top_k reply state =
        Inr (empty_update \<lparr> u_video_store := Some vs \<rparr>)"
      using True by (simp add: selector_node_def vs_def Let_def)
    ultimately show ?thesis by simp
  next
    case False
    let ?ts = "select_targets top_k ?valid (snd (selector_llm reply (metrics state)))"
    have sel: "selected_videos top_k reply state = ?ts"
      using False by (simp add: selected_videos_def Let_def)
    have raw: "?raw \<noteq> []" using False by auto
    show ?thesis
    proof (cases "store_loop vs 0 ?ts")
      case (Inl e)
      then have "selector_node top_k reply state = Inl e"
        using False raw by (simp add: selector_node_def vs_def [symmetric] Let_def split_beta)
      with Inl sel show ?thesis by simp
    next
      case (Inr st')
      then have "selector_node top_k reply state =
          Inr (empty_update \<lparr> u_video_store := Some st',
                               u_metrics := Some (fst (selector_llm reply (metrics state))) \<rparr>)"
        using False raw by (simp add: selector_node_def vs_def [symmetric] Let_def split_beta)
      with Inr sel show ?thesis by auto
    qed
  qed
qed

text \<open>
  What holds of every selector invocation that returns: in the video store it
  returns, every resource that was \<open>verified\<close> or \<open>watched\<close> is unchanged, every
  resource in another status whose identifier is met among the selected videos is
  marked \<open>candidate\<close>, and every identifier met among the selected videos that the
  store did not hold is inserted with status \<open>candidate\<close>.
\<close>

lemma selector_statuses_when_it_returns:
  assumes "selector_node top_k reply state = Inr u"
    and "vs = (case video_store state of None \<Rightarrow> [] | Some st \<Rightarrow> st)"
    and "ids = set (target_ids 0 (selected_videos top_k reply state))"
  shows "\<exists>st'. u_video_store u = Some st'
     \<and> (\<forall>vid r. map_of vs vid = Some r \<longrightarrow>
           (status r = ''verified'' \<or> status r = ''watched'' \<longrightarrow> map_of st' vid = Some r)
         \<and> (status r \<noteq> ''verified'' \<and> status r \<noteq> ''watched'' \<and> vid \<in> ids \<longrightarrow>
              map_of st' vid = Some (r \<lparr> status := ''candidate'' \<rparr>)))
     \<and> (\<forall>vid. map_of vs vid = None \<and> vid \<in> ids \<longrightarrow>
           (\<exists>r'. map_of st' vid = Some r' \<and> status r' = ''candidate''))"
proof -
  from selector_node_cases [of top_k reply state] assms(1)
  consider
    (early) "selected_videos top_k reply state = []" "u = empty_update \<lparr> u_video_store := Some vs \<rparr>"
  | (loop) st' m where "store_loop vs 0 (selected_videos top_k reply state) = Inr st'"
      "u = empty_update \<lparr> u_video_store := Some st', u_metrics := Some m \<rparr>"
    unfolding assms(2) by auto
  then show ?thesis
  proof cases
    case early
    then have "ids = {}" using assms(3) by simp
    with early(2) show ?thesis by simp
  next
    case loop
    have kept: "\<And>vid r. map_of vs vid = Some r \<Longrightarrow>
        status r = ''verified'' \<or> status r = ''watched'' \<Longrightarrow> map_of st' vid = Some r"
      by (rule store_loop_keeps_verified [OF loop(1)])
    have marked: "\<And>vid r. map_of vs vid = Some r \<Longrightarrow>
        status r \<noteq> ''verified'' \<and> status r \<noteq> ''watched'' \<and> vid \<in> ids \<Longrightarrow>
        map_of st' vid = Some (r \<lparr> status := ''candidate'' \<rparr>)"
      using store_loop_remarks [OF loop(1)] assms(3) by simp
    have inserted: "\<And>vid. map_of vs vid = None \<and> vid \<in> ids \<Longrightarrow>
        \<exists>r'. map_of st' vid = Some r' \<and> status r' = ''candidate''"
      using store_loop_inserts [OF loop(1)] assms(3) by simp
    show ?thesis
      using loop(2) kept marked inserted by (intro exI [of _ st']) auto
  qed
qed

text \<open>
  The selector returns whenever no raw candidate carries a title or a duration that
  is not a string.
\<close>

lemma store_loop_total:
  "\<forall>v \<in> set ts. (\<exists>u. map_of v ''url'' = Some (PStr u))
      \<and> map_of v ''title'' \<noteq> Some PNone \<and> map_of v ''duration'' \<noteq> Some PNone \<Longrightarrow>
   \<exists>st'. store_loop st i ts = Inr st'"
proof (induction ts arbitrary: st i)
  case Nil
  then show ?case by simp
next
  case (Cons t ts)
  then obtain u where u: "map_of t ''url'' = Some (PStr u)" by auto
  have title: "\<exists>x. str_field (map_of t ''title'') ''Unknown'' = Inr x"
    using Cons.prems by (cases "map_of t ''title''") (auto simp add: str_field_def split: pyval.split)
  have dur: "\<exists>x. str_field (map_of t ''duration'') ''Unknown'' = Inr x"
    using Cons.prems
    by (cases "map_of t ''duration''") (auto simp add: str_field_def split: pyval.split)
  let ?k = "resolve_id i (url_text (PStr u))"
  have "\<exists>r. new_resource ?k t (PStr u) = Inr r"
    using title dur by (auto simp add: new_resource_def str_field_def)
  then obtain r where r: "new_resource ?k t (PStr u) = Inr r" by blast
  have "\<exists>st1. store_step st i t = Inr st1"
  proof (cases "map_of st ?k")
    case None
    with u r show ?thesis by (simp add: store_step_def Let_def)
  next
    case (Some r0)
    with u show ?thesis by (simp add: store_step_def Let_def)
  qed
  then obtain st1 where st1: "store_step st i t = Inr st1" by blast
  from Cons.IH [of st1 "Suc i"] Cons.prems st1 show ?case by simp
qed

lemma valid_candidates_fields:
  "v \<in> set (valid_candidates raw) \<Longrightarrow>
   \<exists>c \<in> set raw. map_of v ''title'' = map_of c ''title'' \<and> map_of v ''duration'' = map_of c ''duration''"
  by (induction raw) (auto simp add: update_conv' split: option.splits)

lemma selector_returns_on_string_fields:
  assumes "\<forall>c \<in> set (case raw_candidates state of None \<Rightarrow> [] | Some cs \<Rightarrow> cs).
             map_of c ''title'' \<noteq> Some PNone \<and> map_of c ''duration'' \<noteq> Some PNone"
  shows "\<exists>u. selector_node top_k reply state = Inr u"
proof -
  let ?raw = "case raw_candidates state of None \<Rightarrow> [] | Some cs \<Rightarrow> cs"
  let ?ts = "selected_videos top_k reply state"
  have sub: "set ?ts \<subseteq> set (valid_candidates ?raw)"
    using select_targets_subset [of top_k "valid_candidates ?raw"]
    by (auto simp add: selected_videos_def Let_def)
  have "\<forall>v \<in> set ?ts. (\<exists>u. map_of v ''url'' = Some (PStr u))
      \<and> map_of v ''title'' \<noteq> Some PNone \<and> map_of v ''duration'' \<noteq> Some PNone"
  proof
    fix v assume "v \<in> set ?ts"
    with sub have v: "v \<in> set (valid_candidates ?raw)" by blast
    from valid_candidates_fields [OF v] assms
    have "map_of v ''title'' \<noteq> Some PNone \<and> map_of v ''duration'' \<noteq> Some PNone"
      by auto
    with valid_candidates_have_url [OF v]
    show "(\<exists>u. map_of v ''url'' = Some (PStr u))
      \<and> map_of v ''title'' \<noteq> Some PNone \<and> map_of v ''duration'' \<noteq> Some PNone"
      by simp
  qed
  from store_loop_total [OF this]
  obtain st' where
    "store_loop (case video_store state of None \<Rightarrow> [] | Some st \<Rightarrow> st) 0 ?ts = Inr st'"
    by blast
  with selector_node_cases [of top_k reply state] show ?thesis by auto
qed

text \<open>
  C4, at an input where the code leaves the claim. The searcher has found one
  video, unseen so far, whose search result carries no title (\<open>None\<close>). The claim
  has the selector insert its identifier \<open>new1\<close> with status \<open>candidate\<close>; the
  selector raises \<open>ValidationError\<close> when it builds the resource, and returns no
  store.
\<close>

theorem selector_raises_on_missing_title:
  "selector_node 5 LlmRaised
     ((initial_state ''X'')
        \<lparr> raw_candidates := Some
             [[(''title'', PNone), (''link'', PStr ''https://youtu.be/new1'')]] \<rparr>)
     = Inl ValidationError
   \<and> target_ids 0
       (selected_videos 5 LlmRaised
          ((initial_state ''X'')
             \<lparr> raw_candidates := Some
                  [[(''title'', PNone), (''link'', PStr ''https://youtu.be/new1'')]] \<rparr>))
     = [''new1'']"
  by code_simp

text \<open>
  The same round with a title: the verified resource is kept as it is, the rejected
  one is marked \<open>candidate\<close> and the unseen one is inserted as \<open>candidate\<close>.
\<close>

lemma selector_example:
  "\<exists>u st'.
     selector_node 5 LlmRaised
       ((initial_state ''X'')
          \<lparr> video_store := Some
               [(''abc123'',
                 (blank_resource ''abc123'' ''A'' ''https://youtu.be/abc123'' ''1:00'')
                   \<lparr> status := ''verified'' \<rparr>),
                (''old1'',
                 (blank_resource ''old1'' ''B'' ''https://youtu.be/old1'' ''2:00'')
                   \<lparr> status := ''rejected'' \<rparr>)],
            raw_candidates := Some
               [[(''link'', PStr ''https://www.youtube.com/watch?v=abc123&t=10s'')],
                [(''link'', PStr ''https://youtu.be/old1'')],
                [(''title'', PStr ''C''), (''link'', PStr ''https://youtu.be/new1'')]] \<rparr>) = Inr u
     \<and> u_video_store u = Some st'
     \<and> map_of st' ''abc123'' =
         Some ((blank_resource ''abc123'' ''A'' ''https://youtu.be/abc123'' ''1:00'')
                 \<lparr> status := ''verified'' \<rparr>)
     \<and> map_of st' ''old1'' =
         Some ((blank_resource ''old1'' ''B'' ''https://youtu.be/old1'' ''2:00'')
                 \<lparr> status := ''candidate'' \<rparr>)
     \<and> (\<exists>r'. map_of st' ''new1'' = Some r' \<and> status r' = ''candidate'')"
proof -
  let ?r1 = "(blank_resource ''abc123'' ''A'' ''https://youtu.be/abc123'' ''1:00'')
               \<lparr> status := ''verified'' \<rparr>"
  let ?r2 = "(blank_resource ''old1'' ''B'' ''https://youtu.be/old1'' ''2:00'')
               \<lparr> status := ''rejected'' \<rparr>"
  let ?vs = "[(''abc123'', ?r1), (''old1'', ?r2)]"
  let ?raw = "[[(''link'', PStr ''https://www.youtube.com/watch?v=abc123&t=10s'')],
                [(''link'', PStr ''https://youtu.be/old1'')],
                [(''title'', PStr ''C''), (''link'', PStr ''https://youtu.be/new1'')]]"
  let ?S = "(initial_state ''X'') \<lparr> video_store := Some ?vs, raw_candidates := Some ?raw \<rparr>"
  have ids: "target_ids 0 (selected_videos 5 LlmRaised ?S) = [''abc123'', ''old1'', ''new1'']"
    by code_simp
  have "\<forall>c \<in> set (case raw_candidates ?S of None \<Rightarrow> [] | Some cs \<Rightarrow> cs).
             map_of c ''title'' \<noteq> Some PNone \<and> map_of c ''duration'' \<noteq> Some PNone"
    by simp
  from selector_returns_on_string_fields [OF this, of 5 LlmRaised]
  obtain u where ret: "selector_node 5 LlmRaised ?S = Inr u" by blast
  have a: "?vs = (case video_store ?S of None \<Rightarrow> [] | Some st \<Rightarrow> st)" by simp
  have b: "{''abc123'', ''old1'', ''new1''} = set (target_ids 0 (selected_videos 5 LlmRaised ?S))"
    unfolding ids by simp
  from selector_statuses_when_it_returns [OF ret a b] obtain st' where
    st': "u_video_store u = Some st'" and
    old: "\<forall>vid r. map_of ?vs vid = Some r \<longrightarrow>
           (status r = ''verified'' \<or> status r = ''watched'' \<longrightarrow> map_of st' vid = Some r)
         \<and> (status r \<noteq> ''verified'' \<and> status r \<noteq> ''watched''
              \<and> vid \<in> {''abc123'', ''old1'', ''new1''} \<longrightarrow>
              map_of st' vid = Some (r \<lparr> status := ''candidate'' \<rparr>))" and
    new: "\<forall>vid. map_of ?vs vid = None \<and> vid \<in> {''abc123'', ''old1'', ''new1''} \<longrightarrow>
           (\<exists>r'. map_of st' vid = Some r' \<and> status r' = ''candidate'')"
    by blast
  have k1: "map_of st' ''abc123'' = Some ?r1"
    using old [rule_format, of "''abc123''" ?r1] by (simp add: blank_resource_def)
  have k2: "map_of st' ''old1'' = Some (?r2 \<lparr> status := ''candidate'' \<rparr>)"
    using old [rule_format, of "''old1''" ?r2] by (simp add: blank_resource_def)
  have k3: "\<exists>r'. map_of st' ''new1'' = Some r' \<and> status r' = ''candidate''"
    using new [rule_format, of "''new1''"] by simp
  show ?thesis
    using ret st' k1 k2 k3 by (intro exI [of _ u] exI [of _ st']) simp
qed

section \<open>Properties of the planner\<close>





section \<open>Properties of the analyst\<close>

text \<open>On an empty video store the analyst returns its first fixed answer.\<close>

lemma analyst_empty_store:
  "video_store state = None \<or> video_store state = Some [] \<Longrightarrow>
   analyst_node loads download other_le state =
     Inr (FinalAnswer ''No videos were successfully processed.'')"
  by (auto simp add: analyst_node_def)

text \<open>
  When the first loop runs through a non-empty store without finding a relevant
  window and no resource has a transcript, the analyst returns its second fixed
  answer; in neither case does it reach the call of the language model.
\<close>

lemma analyst_no_content:
  assumes "video_store state = Some vs" and "vs \<noteq> []"
    and "gather loads download other_le False (map snd vs) = Inr False"
    and "\<not> list_ex (\<lambda>res. str_truthy (transcript res)) (map snd vs)"
  shows "analyst_node loads download other_le state =
     Inr (FinalAnswer ''No relevant video content or transcripts found to answer the query.'')"
  using assms by (simp add: analyst_node_def)

text \<open>A resource that is not verified, or has no summary, is skipped by the first loop.\<close>

lemma resource_pass_skips:
  "status res \<noteq> ''verified'' \<or> \<not> str_truthy (summary res) \<Longrightarrow>
   resource_pass loads download other_le res = Inr False"
  by (auto simp add: resource_pass_def)

text \<open>
  C7, at an input where the code leaves the claim: a verified resource whose summary
  is the JSON text \<open>[]\<close> and whose transcript is empty yields no relevant window and
  has no transcript, and the analyst raises \<open>AttributeError\<close> (the decoded list has
  no \<open>get\<close>) where the claim has it return the second fixed answer.
\<close>

theorem analyst_raises_on_array_summary:
  "analyst_node loads_empty_array (\<lambda>u. True) (\<lambda>a b. Inl TypeError)
     ((initial_state ''X'')
        \<lparr> video_store := Some
             [(''abc'', (blank_resource ''abc'' ''Unknown'' ''https://youtu.be/abc'' ''Unknown'')
                          \<lparr> status := ''verified'', summary := Some ''[]'' \<rparr>)] \<rparr>)
     = Inl AttributeError"
  by (simp add: analyst_node_def resource_pass_def blank_resource_def str_truthy_def
      loads_empty_array_def)

section \<open>The selector and its router\<close>

text \<open>
  Every return of the selector writes \<open>video_store\<close>, so the blackboard that the
  selector routing function reads holds one and the routing cannot raise.
\<close>

lemma selector_writes_video_store:
  "selector_node top_k reply state = Inr u \<Longrightarrow>
   \<exists>vs. video_store (apply_update state u) = Some vs"
proof -
  assume "selector_node top_k reply state = Inr u"
  with selector_node_cases [of top_k reply state]
  obtain vs where "u_video_store u = Some vs" by auto
  then show ?thesis
    by (auto simp add: apply_update_def replace_with_def)
qed

lemma route_after_selector:
  "selector_node top_k reply state = Inr u \<Longrightarrow>
   route_selector_output (apply_update state u) \<noteq> Inl KeyError"
proof -
  assume ret: "selector_node top_k reply state = Inr u"
  from selector_writes_video_store [OF ret]
  obtain vs where "video_store (apply_update state u) = Some vs" by auto
  then show ?thesis by (simp add: route_selector_output_def Let_def)
qed

end
